theory Spec2Isabelle
  imports Main "HOL-Library.Word"
begin

section \<open>The control block of example.hpp\<close>

text \<open>
  \<^verbatim>\<open>DerivedControlBlock\<close> is the one concrete implementation of the abstract
  interface \<^verbatim>\<open>BaseControlBlock\<close>. Its whole state is the member \<^verbatim>\<open>count\<close>, which the
  constructor sets to 1 and \<^verbatim>\<open>GetCount\<close> returns as a C++ \<^verbatim>\<open>int\<close>. The file does not
  declare the member; it is given the type \<^verbatim>\<open>GetCount\<close> returns. The counter is modelled
  as a 32-bit two's-complement word: \<open>+\<close> and \<open>-\<close> wrap around, as the compiled program
  does on overflow (which the C++ standard leaves undefined for \<^verbatim>\<open>int\<close>), and \<open>sint\<close> reads
  the signed value the program sees.
\<close>

record DerivedControlBlock =
  count :: "32 word"

text \<open>\<^verbatim>\<open>DerivedControlBlock() : count(1) {}\<close>\<close>

definition DerivedControlBlock_ctor :: DerivedControlBlock where
  "DerivedControlBlock_ctor = \<lparr>count = 1\<rparr>"

text \<open>\<^verbatim>\<open>void Decrement() override { count--; }\<close>\<close>

definition Decrement :: "DerivedControlBlock \<Rightarrow> DerivedControlBlock" where
  "Decrement b = b\<lparr>count := count b - 1\<rparr>"

text \<open>\<^verbatim>\<open>void Increment() override { count++; }\<close>\<close>

definition Increment :: "DerivedControlBlock \<Rightarrow> DerivedControlBlock" where
  "Increment b = b\<lparr>count := count b + 1\<rparr>"

text \<open>
  \<^verbatim>\<open>int GetCount() override { return count; }\<close>
  The method is not declared \<^verbatim>\<open>const\<close>, so the model returns the object after the call
  next to the value.
\<close>

definition GetCount :: "DerivedControlBlock \<Rightarrow> 32 word \<times> DerivedControlBlock" where
  "GetCount b = (count b, b)"

subsection \<open>Calls through the interface\<close>

text \<open>
  The three virtual methods of \<^verbatim>\<open>BaseControlBlock\<close>, in the order of their declaration.
  The specification calls them ReleaseStrong, AcquireStrong and GetStrongCount.
\<close>

datatype call = CallDecrement | CallIncrement | CallGetCount

text \<open>
  A call either returns (the two \<^verbatim>\<open>void\<close> methods return nothing, \<^verbatim>\<open>GetCount\<close> an
  \<^verbatim>\<open>int\<close>) or would leave by an exception.
\<close>

datatype outcome = Returns "32 word option" | Throws

text \<open>
  What a call does besides updating the counter: running the teardown of a managed value.
\<close>

datatype effect = DestroyValue

record observation =
  outcome :: outcome
  effects :: "effect list"

text \<open>
  Each method body is a single statement on \<^verbatim>\<open>count\<close>: none contains a \<^verbatim>\<open>throw\<close>, a
  \<^verbatim>\<open>delete\<close> or a destructor call, and the class holds no managed value. So every call
  returns and has no effect beyond the counter.
\<close>

fun invoke :: "call \<Rightarrow> DerivedControlBlock \<Rightarrow> observation \<times> DerivedControlBlock" where
  "invoke CallDecrement b = (\<lparr>outcome = Returns None, effects = []\<rparr>, Decrement b)"
| "invoke CallIncrement b = (\<lparr>outcome = Returns None, effects = []\<rparr>, Increment b)"
| "invoke CallGetCount b =
     (case GetCount b of (v, b') \<Rightarrow> (\<lparr>outcome = Returns (Some v), effects = []\<rparr>, b'))"

text \<open>A sequence of calls on one object: what each call showed, and the object at the end.\<close>

fun run :: "call list \<Rightarrow> DerivedControlBlock \<Rightarrow> observation list \<times> DerivedControlBlock" where
  "run [] b = ([], b)"
| "run (c # cs) b =
     (case invoke c b of (ob, b') \<Rightarrow>
        (case run cs b' of (obs, b'') \<Rightarrow> (ob # obs, b'')))"

text \<open>The object after each call of the sequence, in order.\<close>

fun states :: "call list \<Rightarrow> DerivedControlBlock \<Rightarrow> DerivedControlBlock list" where
  "states [] b = []"
| "states (c # cs) b = snd (invoke c b) # states cs (snd (invoke c b))"

text \<open>How many times a teardown ran during a sequence of calls.\<close>

definition teardowns :: "observation list \<Rightarrow> nat" where
  "teardowns obs = length (filter (\<lambda>e. e = DestroyValue) (concat (map effects obs)))"

subsection \<open>What callers may be required to respect\<close>

text \<open>
  Neither \<^verbatim>\<open>Increment\<close> nor \<^verbatim>\<open>Decrement\<close> checks the counter before changing it. The
  properties below that need more than the code guarantees are stated for call sequences
  in which every call is made in a state allowed by a guard.
\<close>

fun guarded ::
  "(call \<Rightarrow> DerivedControlBlock \<Rightarrow> bool) \<Rightarrow> call list \<Rightarrow> DerivedControlBlock \<Rightarrow> bool" where
  "guarded g [] b = True"
| "guarded g (c # cs) b = (g c b \<and> guarded g cs (snd (invoke c b)))"

text \<open>
  A reference is released only while one is held (the counter is at least 1), and the
  counter is not incremented at \<^verbatim>\<open>INT_MAX\<close>.
\<close>

fun release_contract :: "call \<Rightarrow> DerivedControlBlock \<Rightarrow> bool" where
  "release_contract CallDecrement b = (1 \<le> sint (count b))"
| "release_contract CallIncrement b = (sint (count b) < 2147483647)"
| "release_contract CallGetCount b = True"

text \<open>
  A reference is acquired only from a live block (the counter is at least 1), and the
  counter is not decremented at \<^verbatim>\<open>INT_MIN\<close>.
\<close>

fun acquire_contract :: "call \<Rightarrow> DerivedControlBlock \<Rightarrow> bool" where
  "acquire_contract CallDecrement b = (- 2147483648 < sint (count b))"
| "acquire_contract CallIncrement b = (1 \<le> sint (count b))"
| "acquire_contract CallGetCount b = True"

text \<open>
  In a list of successive states: wherever the counter is 0, it is positive in no later
  state.
\<close>

fun no_resurrection :: "DerivedControlBlock list \<Rightarrow> bool" where
  "no_resurrection [] = True"
| "no_resurrection (b # bs) =
     ((count b = 0 \<longrightarrow> (\<forall>b' \<in> set bs. \<not> 0 < sint (count b'))) \<and> no_resurrection bs)"

section \<open>Basic facts\<close>

lemma sint_inc: "sint (x :: 32 word) < 2147483647 \<Longrightarrow> sint (x + 1) = sint x + 1"
  using sint_ge [of x] by (simp add: sint_word_ariths signed_take_bit_int_eq_self)

lemma sint_dec: "- 2147483648 < sint (x :: 32 word) \<Longrightarrow> sint (x - 1) = sint x - 1"
  using sint_lt [of x] by (simp add: sint_word_ariths signed_take_bit_int_eq_self)

lemma sint_of_nat32: "sint (of_nat m :: 32 word) = (int m + 2 ^ 31) mod 2 ^ 32 - 2 ^ 31"
  using int_word_sint [where 'a = 32, of "int m"] by simp

lemma fresh_GetCount: "GetCount DerivedControlBlock_ctor = (1, DerivedControlBlock_ctor)"
  by (simp add: GetCount_def DerivedControlBlock_ctor_def)


lemma count_funpow_Increment: "count ((Increment ^^ n) b) = count b + of_nat n"
  by (induction n) (simp_all add: Increment_def)

lemma effects_invoke: "effects (fst (invoke c b)) = []"
  by (cases c) (simp_all add: GetCount_def)

lemma run_append:
  "run (xs @ ys) b =
     (fst (run xs b) @ fst (run ys (snd (run xs b))), snd (run ys (snd (run xs b))))"
  by (induction xs arbitrary: b) (simp_all add: split_beta)

lemma teardowns_Cons:
  "teardowns (ob # obs) = length (filter (\<lambda>e. e = DestroyValue) (effects ob)) + teardowns obs"
  by (simp add: teardowns_def)

lemma teardowns_run: "teardowns (fst (run cs b)) = 0"
proof (induction cs arbitrary: b)
  case Nil
  show ?case by (simp add: teardowns_def)
next
  case (Cons c cs)
  have "fst (run (c # cs) b) = fst (invoke c b) # fst (run cs (snd (invoke c b)))"
    by (simp add: split_beta)
  then show ?case
    using Cons.IH [of "snd (invoke c b)"] by (simp add: teardowns_Cons effects_invoke)
qed

text \<open>The counter after any sequence of calls: only the numbers of the two calls matter.\<close>

lemma count_run:
  "count (snd (run cs b)) =
     count b + of_nat (length (filter (\<lambda>c. c = CallIncrement) cs))
             - of_nat (length (filter (\<lambda>c. c = CallDecrement) cs))"
proof (induction cs arbitrary: b)
  case Nil
  show ?case by simp
next
  case (Cons c cs)
  have "snd (run (c # cs) b) = snd (run cs (snd (invoke c b)))"
    by (simp add: split_beta)
  then show ?case
    using Cons.IH [of "snd (invoke c b)"]
    by (cases c) (simp_all add: Decrement_def Increment_def GetCount_def)
qed

lemma balanced_calls_keep_count:
  "length (filter (\<lambda>c. c = CallIncrement) cs) = length (filter (\<lambda>c. c = CallDecrement) cs) \<Longrightarrow>
     count (snd (run cs b)) = count b"
  by (simp add: count_run)


lemma nonneg_step:
  "0 \<le> sint (count b) \<Longrightarrow> release_contract c b \<Longrightarrow> 0 \<le> sint (count (snd (invoke c b)))"
  by (cases c) (simp_all add: Decrement_def Increment_def GetCount_def sint_inc sint_dec)

lemma nonneg_states:
  "0 \<le> sint (count b) \<Longrightarrow> guarded release_contract cs b \<Longrightarrow>
     \<forall>b' \<in> set (states cs b). 0 \<le> sint (count b')"
proof (induction cs arbitrary: b)
  case Nil
  then show ?case by simp
next
  case (Cons c cs)
  from Cons.prems have "0 \<le> sint (count (snd (invoke c b)))"
    by (simp add: nonneg_step)
  moreover from Cons.prems have "guarded release_contract cs (snd (invoke c b))"
    by simp
  ultimately show ?case
    using Cons.IH [of "snd (invoke c b)"] by simp
qed

lemma nonpos_step:
  "sint (count b) \<le> 0 \<Longrightarrow> acquire_contract c b \<Longrightarrow> sint (count (snd (invoke c b))) \<le> 0"
  by (cases c) (simp_all add: Decrement_def Increment_def GetCount_def sint_dec)

lemma nonpos_states:
  "sint (count b) \<le> 0 \<Longrightarrow> guarded acquire_contract cs b \<Longrightarrow>
     \<forall>b' \<in> set (states cs b). \<not> 0 < sint (count b')"
proof (induction cs arbitrary: b)
  case Nil
  then show ?case by simp
next
  case (Cons c cs)
  from Cons.prems have "sint (count (snd (invoke c b))) \<le> 0"
    by (simp add: nonpos_step)
  moreover from Cons.prems have "guarded acquire_contract cs (snd (invoke c b))"
    by simp
  ultimately show ?case
    using Cons.IH [of "snd (invoke c b)"] by simp
qed

section \<open>The claims\<close>

subsection \<open>C1: teardown of the managed value\<close>

text \<open>
  C1, as stated, fails: after the one \<^verbatim>\<open>Decrement\<close> (ReleaseStrong) that takes a fresh
  block from 1 to 0, the post-decrement count is 0 and no teardown has run, so the number
  of teardowns is not 1.
\<close>

theorem release_to_zero_runs_no_teardown:
  "count (snd (run [CallDecrement] DerivedControlBlock_ctor)) = 0
   \<and> teardowns (fst (run [CallDecrement] DerivedControlBlock_ctor)) \<noteq> 1"
  by (simp add: DerivedControlBlock_ctor_def Decrement_def teardowns_def)

text \<open>
  C1, amended: the block manages no value and \<^verbatim>\<open>Decrement\<close> only decrements the counter:
  a ReleaseStrong call returns nothing, runs no teardown and leaves the object with its
  counter one lower (wrapping at \<^verbatim>\<open>INT_MIN\<close>) and nothing else changed, whatever the
  post-decrement count is. For every sequence of calls from every state, the counter at the
  end is the counter at the start plus the number of \<^verbatim>\<open>Increment\<close> calls minus the number
  of \<^verbatim>\<open>Decrement\<close> calls, and the number of teardowns run is 0.
\<close>

theorem Decrement_runs_no_teardown:
  "invoke CallDecrement b =
     (\<lparr>outcome = Returns None, effects = []\<rparr>, b\<lparr>count := count b - 1\<rparr>)
   \<and> count (snd (run cs b)) =
       count b + of_nat (length (filter (\<lambda>c. c = CallIncrement) cs))
               - of_nat (length (filter (\<lambda>c. c = CallDecrement) cs))
   \<and> teardowns (fst (run cs b)) = 0"
proof -
  have "invoke CallDecrement b =
          (\<lparr>outcome = Returns None, effects = []\<rparr>, b\<lparr>count := count b - 1\<rparr>)"
    by (simp add: Decrement_def)
  moreover note count_run [of cs b] teardowns_run [of cs b]
  ultimately show ?thesis by (simp only: simp_thms)
qed

subsection \<open>C2: the counter is not negative\<close>

text \<open>
  C2, as stated, fails: two \<^verbatim>\<open>Decrement\<close> calls on a fresh block leave the counter at -1.
\<close>

theorem double_release_goes_negative:
  "sint (count (snd (run [CallDecrement, CallDecrement] DerivedControlBlock_ctor))) = - 1"
  by (simp add: DerivedControlBlock_ctor_def Decrement_def)

text \<open>
  C2, amended: the counter is at least 0 in the initial state, and from a state where it is
  at least 0 it stays so after every call of a sequence in which \<^verbatim>\<open>Decrement\<close> is only
  called while the counter is at least 1 and \<^verbatim>\<open>Increment\<close> only while it is below
  \<^verbatim>\<open>INT_MAX\<close>; \<^verbatim>\<open>GetCount\<close> may be called anywhere.
\<close>

theorem count_nonneg_under_release_contract:
  "0 \<le> sint (count DerivedControlBlock_ctor) \<and>
   (0 \<le> sint (count b) \<longrightarrow> guarded release_contract cs b \<longrightarrow>
      (\<forall>b' \<in> set (states cs b). 0 \<le> sint (count b')))"
  using nonneg_states [of b cs] by (simp add: DerivedControlBlock_ctor_def)

text \<open>
  The amended C2 at a fresh block and the calls Increment, GetCount, Decrement, Decrement:
  the counter goes 2, 2, 1, 0.
\<close>

theorem count_nonneg_under_release_contract_witness:
  "0 \<le> sint (count DerivedControlBlock_ctor)
   \<and> guarded release_contract
        [CallIncrement, CallGetCount, CallDecrement, CallDecrement] DerivedControlBlock_ctor
   \<and> list_all (\<lambda>b'. 0 \<le> sint (count b'))
        (states [CallIncrement, CallGetCount, CallDecrement, CallDecrement]
           DerivedControlBlock_ctor)
   \<and> map (\<lambda>b. sint (count b))
        (states [CallIncrement, CallGetCount, CallDecrement, CallDecrement]
           DerivedControlBlock_ctor) = [2, 2, 1, 0]"
proof -
  have g: "guarded release_contract
             [CallIncrement, CallGetCount, CallDecrement, CallDecrement] DerivedControlBlock_ctor"
    by (simp add: DerivedControlBlock_ctor_def Increment_def Decrement_def GetCount_def)
  have v: "map (\<lambda>b. sint (count b))
             (states [CallIncrement, CallGetCount, CallDecrement, CallDecrement]
                DerivedControlBlock_ctor) = [2, 2, 1, 0]"
    by (simp add: DerivedControlBlock_ctor_def Increment_def Decrement_def GetCount_def)
  from count_nonneg_under_release_contract
         [of DerivedControlBlock_ctor "[CallIncrement, CallGetCount, CallDecrement, CallDecrement]"]
       g v
  show ?thesis unfolding list_all_iff by blast
qed

subsection \<open>C3: no resurrection\<close>

text \<open>
  C3, as stated, fails: on a fresh block \<^verbatim>\<open>Decrement\<close> takes the counter to 0 and the
  following \<^verbatim>\<open>Increment\<close> takes it back to 1.
\<close>

theorem acquire_after_zero_resurrects:
  "map (\<lambda>b. sint (count b)) (states [CallDecrement, CallIncrement] DerivedControlBlock_ctor)
     = [0, 1]
   \<and> \<not> no_resurrection
         (DerivedControlBlock_ctor # states [CallDecrement, CallIncrement] DerivedControlBlock_ctor)"
  by (simp add: DerivedControlBlock_ctor_def Increment_def Decrement_def)

text \<open>
  C3, amended: in every sequence of calls in which \<^verbatim>\<open>Increment\<close> is only called while the
  counter is at least 1 and \<^verbatim>\<open>Decrement\<close> is not called at \<^verbatim>\<open>INT_MIN\<close>, once the counter
  is 0 it is positive at no later point.
\<close>

theorem no_resurrection_under_acquire_contract:
  "guarded acquire_contract cs b \<Longrightarrow> no_resurrection (b # states cs b)"
proof (induction cs arbitrary: b)
  case Nil
  then show ?case by simp
next
  case (Cons c cs)
  have later: "count b = 0 \<longrightarrow> (\<forall>b' \<in> set (states (c # cs) b). \<not> 0 < sint (count b'))"
    using nonpos_states [OF _ Cons.prems] by simp
  from Cons.prems have "guarded acquire_contract cs (snd (invoke c b))"
    by simp
  then have "no_resurrection (snd (invoke c b) # states cs (snd (invoke c b)))"
    by (rule Cons.IH)
  with later show ?case by simp
qed

text \<open>
  The amended C3 at a fresh block and the calls Increment, Decrement, Decrement, GetCount,
  Decrement: the counter goes 2, 1, 0, 0, -1, so it reaches 0 and the sequence goes on.
\<close>

theorem no_resurrection_under_acquire_contract_witness:
  "guarded acquire_contract
     [CallIncrement, CallDecrement, CallDecrement, CallGetCount, CallDecrement]
     DerivedControlBlock_ctor
   \<and> no_resurrection
       (DerivedControlBlock_ctor
          # states [CallIncrement, CallDecrement, CallDecrement, CallGetCount, CallDecrement]
              DerivedControlBlock_ctor)
   \<and> map (\<lambda>b. sint (count b))
       (states [CallIncrement, CallDecrement, CallDecrement, CallGetCount, CallDecrement]
          DerivedControlBlock_ctor) = [2, 1, 0, 0, - 1]"
proof -
  have g: "guarded acquire_contract
             [CallIncrement, CallDecrement, CallDecrement, CallGetCount, CallDecrement]
             DerivedControlBlock_ctor"
    by (simp add: DerivedControlBlock_ctor_def Increment_def Decrement_def GetCount_def)
  have v: "map (\<lambda>b. sint (count b))
             (states [CallIncrement, CallDecrement, CallDecrement, CallGetCount, CallDecrement]
                DerivedControlBlock_ctor) = [2, 1, 0, 0, - 1]"
    by (simp add: DerivedControlBlock_ctor_def Increment_def Decrement_def GetCount_def)
  from g no_resurrection_under_acquire_contract [OF g] v show ?thesis by simp
qed

subsection \<open>C4: matched acquire and release\<close>


subsection \<open>C8: the calls always return\<close>

text \<open>
  C8: in every state every call returns: its outcome is never an exception, \<^verbatim>\<open>Increment\<close>
  (AcquireStrong) in particular returns with nothing to report, and every call of a
  sequence is carried out, from every state.
\<close>

theorem calls_always_return:
  "(\<exists>v. outcome (fst (invoke c b)) = Returns v) \<and> outcome (fst (invoke c b)) \<noteq> Throws
   \<and> fst (invoke CallIncrement b) = \<lparr>outcome = Returns None, effects = []\<rparr>
   \<and> length (fst (run cs b)) = length cs"
proof -
  have "\<exists>v. outcome (fst (invoke c b)) = Returns v"
    by (cases c) (simp_all add: GetCount_def)
  moreover have "length (fst (run cs b)) = length cs"
    by (induction cs arbitrary: b) (simp_all add: split_beta)
  ultimately show ?thesis by auto
qed

subsection \<open>C9: GetCount only observes\<close>

text \<open>
  C9: in every state \<^verbatim>\<open>GetCount\<close> returns the counter and leaves the object as it was; a
  \<^verbatim>\<open>GetCount\<close> call put anywhere into a sequence of calls reports the counter at that
  point and changes neither what the other calls show nor the final state.
\<close>

theorem GetCount_pure_observer:
  "GetCount b = (count b, b)
   \<and> run (xs @ CallGetCount # ys) b =
       (fst (run xs b)
          @ \<lparr>outcome = Returns (Some (count (snd (run xs b)))), effects = []\<rparr>
          # fst (run ys (snd (run xs b))),
        snd (run ys (snd (run xs b))))
   \<and> run (xs @ ys) b =
       (fst (run xs b) @ fst (run ys (snd (run xs b))), snd (run ys (snd (run xs b))))"
  by (simp add: run_append GetCount_def split_beta)

subsection \<open>C10: the counter wraps around\<close>

text \<open>
  C10: after \<open>n\<close> \<^verbatim>\<open>Increment\<close> calls on a fresh block \<^verbatim>\<open>GetCount\<close> returns the
  two's-complement reading of \<open>(1 + n) mod 2 ^ 32\<close>; one \<^verbatim>\<open>Increment\<close> at \<^verbatim>\<open>INT_MAX\<close>
  gives \<^verbatim>\<open>INT_MIN\<close>, and one \<^verbatim>\<open>Decrement\<close> at \<^verbatim>\<open>INT_MIN\<close> gives \<^verbatim>\<open>INT_MAX\<close>.
\<close>

theorem count_wraps_around:
  "sint (fst (GetCount ((Increment ^^ n) DerivedControlBlock_ctor)))
     = (1 + int n + 2 ^ 31) mod 2 ^ 32 - 2 ^ 31
   \<and> sint (fst (GetCount (Increment \<lparr>count = 2147483647\<rparr>))) = - 2147483648
   \<and> sint (fst (GetCount (Decrement \<lparr>count = - 2147483648\<rparr>))) = 2147483647"
proof -
  have "count ((Increment ^^ n) DerivedControlBlock_ctor) = of_nat (Suc n)"
    by (simp add: count_funpow_Increment DerivedControlBlock_ctor_def)
  then have "sint (fst (GetCount ((Increment ^^ n) DerivedControlBlock_ctor)))
               = (int (Suc n) + 2 ^ 31) mod 2 ^ 32 - 2 ^ 31"
    by (simp only: GetCount_def fst_conv sint_of_nat32)
  then show ?thesis
    by (simp add: GetCount_def Increment_def Decrement_def add.commute)
qed

end
